theory Spec2Isabelle
  imports Main
begin

section \<open>PhoneFlasher: the orchestration core of phoneflasher.py\<close>

text \<open>
  The program is a Tk window around three kinds of effect: subprocesses (adb and
  fastboot), HTTP downloads written to files, and lines put on a log queue. The
  embedding makes each effect explicit:
  \<^item> every function returns the list of events it produced, in order (log lines,
    calls of \<open>subprocess.run\<close>, calls of \<open>urlopen\<close>, message boxes);
  \<^item> the file system is a map from paths to files and is passed through the functions
    that write to it;
  \<^item> an exception is a value: a function that can raise returns \<open>exn + 'a\<close>;
  \<^item> what the outside world answers (what a program prints, what a server sends, whether
    an archive parses, what the user clicks) is read from a record \<open>env\<close>.
  Strings are lists of 8-bit characters. A worker thread is run as a plain call: the
  interleaving of several threads is not part of the model.
\<close>

subsection \<open>Strings\<close>

type_synonym path = string
type_synonym bytes = string

text \<open>\<open>str.strip()\<close>: the characters Python treats as whitespace, among the first 256
  code points.\<close>

definition is_space :: "char \<Rightarrow> bool" where
  "is_space c = (c \<in> set [CHR 0x09, CHR 0x0A, CHR 0x0B, CHR 0x0C, CHR 0x0D,
                           CHR 0x1C, CHR 0x1D, CHR 0x1E, CHR 0x1F, CHR 0x20,
                           CHR 0x85, CHR 0xA0])"

definition lstrip :: "string \<Rightarrow> string" where
  "lstrip s = dropWhile is_space s"

definition rstrip :: "string \<Rightarrow> string" where
  "rstrip s = rev (dropWhile is_space (rev s))"

definition strip :: "string \<Rightarrow> string" where
  "strip s = rstrip (lstrip s)"

text \<open>\<open>sep.join(xs)\<close>.\<close>

fun join :: "string \<Rightarrow> string list \<Rightarrow> string" where
  "join sep [] = []"
| "join sep [x] = x"
| "join sep (x # y # ys) = x @ sep @ join sep (y # ys)"



text \<open>\<open>str(n)\<close> for an integer, in decimal.\<close>

function str_nat :: "nat \<Rightarrow> string" where
  "str_nat n = (if n < 10 then [''0123456789'' ! n]
                else str_nat (n div 10) @ [''0123456789'' ! (n mod 10)])"
  by pat_completeness auto
termination
  by (relation "measure id") auto

definition str_int :: "int \<Rightarrow> string" where
  "str_int i = (if i < 0 then CHR ''-'' # str_nat (nat (- i)) else str_nat (nat i))"

text \<open>
  \<open>s.isdigit()\<close> and \<open>int(s)\<close>. Among the first 256 code points \<open>isdigit\<close> accepts the
  ten decimal digits and the superscripts U+00B2, U+00B3 and U+00B9; \<open>int\<close> accepts only
  the decimal digits and raises \<open>ValueError\<close> on a superscript. A Python with a limit on
  the length of a decimal string (\<open>sys.get_int_max_str_digits()\<close>, 0 for no limit) raises
  \<open>ValueError\<close> beyond it.
\<close>

definition isdigit :: "string \<Rightarrow> bool" where
  "isdigit s =
     (s \<noteq> [] \<and> list_all (\<lambda>c. c \<in> set (''0123456789'' @ [CHR 0xB2, CHR 0xB3, CHR 0xB9])) s)"

definition digit_val :: "char \<Rightarrow> nat" where
  "digit_val c = of_char c - 48"

definition int_of_digits :: "string \<Rightarrow> nat" where
  "int_of_digits s = foldl (\<lambda>a c. 10 * a + digit_val c) 0 s"

text \<open>\<open>Path.name\<close>: the last component of a path.\<close>

definition path_name :: "path \<Rightarrow> string" where
  "path_name p = rev (takeWhile (\<lambda>c. c \<noteq> CHR ''/'') (rev p))"

subsection \<open>Exceptions, events, files and the environment\<close>

text \<open>
  The exceptions the library calls of the program can raise. All of them are subclasses
  of \<open>Exception\<close>; \<open>FileNotFoundError\<close> and \<open>BadZipFile\<close> are the two the source names in
  an \<open>except\<close> clause, \<open>OtherException\<close> stands for every other one (\<open>URLError\<close>,
  \<open>HTTPError\<close>, \<open>TimeoutError\<close>, \<open>PermissionError\<close>, ...). The string is \<open>str(exc)\<close>.
\<close>

datatype exn = FileNotFoundError string | BadZipFile string | OtherException string

fun exn_str :: "exn \<Rightarrow> string" where
  "exn_str (FileNotFoundError m) = m"
| "exn_str (BadZipFile m) = m"
| "exn_str (OtherException m) = m"

text \<open>\<open>except FileNotFoundError\<close>: the one class \<open>_run_cmd\<close> catches.\<close>

fun is_not_found :: "exn \<Rightarrow> bool" where
  "is_not_found (FileNotFoundError m) = True"
| "is_not_found (BadZipFile m) = False"
| "is_not_found (OtherException m) = False"

definition py_int :: "nat \<Rightarrow> string \<Rightarrow> exn + nat" where
  "py_int max_str_digits s =
     (if s = [] \<or> \<not> list_all (\<lambda>c. c \<in> set ''0123456789'') s
      then Inl (OtherException (''invalid literal for int() with base 10: '' @ s))
      else if max_str_digits \<noteq> 0 \<and> length s > max_str_digits
      then Inl (OtherException ''Exceeds the limit for integer string conversion'')
      else Inr (int_of_digits s))"

text \<open>
  \<open>Popen cmd started\<close> records a call \<open>subprocess.run(cmd, ...)\<close>; \<open>started\<close> tells
  whether a child process was created and ran (\<open>False\<close>: the call raised instead).
\<close>

datatype event =
    Log string
  | Popen "string list" bool
  | UrlOpen string
  | AskYesNo string
  | ShowInfo string
  | SetDeviceStatus string string

record completed_process =
  returncode :: int
  stdout :: "string option"
  stderr :: "string option"

record fnode =
  content :: bytes
  mode :: nat

type_synonym fs = "path \<Rightarrow> fnode option"

text \<open>One result of \<open>response.read(chunk_size)\<close>.\<close>

datatype read_result = Chunk bytes | ReadError exn

record response =
  content_length :: "string option"
  body :: "read_result list"

text \<open>What \<open>zipfile.ZipFile(...).extractall(...)\<close> does with the bytes of an archive: it
  writes the members in order, and either finishes, or raises \<open>BadZipFile\<close> or another
  exception after the members written so far (none, when the central directory itself
  is unreadable).\<close>

datatype zip_outcome =
    ZipOk "(path \<times> bytes) list"
  | ZipBad "(path \<times> bytes) list"
  | ZipError "(path \<times> bytes) list" exn

record env =
  base_dir :: path
  program :: "string list \<Rightarrow> exn + completed_process"
  urlopen :: "string \<Rightarrow> exn + response"
  open_wb_error :: "path \<Rightarrow> exn option"
  create_mode :: nat
  percent_of :: "nat \<Rightarrow> nat \<Rightarrow> int"
  read_zip :: "bytes \<Rightarrow> zip_outcome"
  int_max_str_digits :: nat

text \<open>
  \<^item> \<open>base_dir\<close> is \<open>BASE_DIR\<close>, the directory of the script.
  \<^item> \<open>program cmd\<close> is the outcome of \<open>subprocess.run(cmd, ...)\<close>: the completed
    process, or the exception the call raises (\<open>FileNotFoundError\<close> for a path that is
    not there, \<open>NotADirectoryError\<close> when a parent of the path is a file,
    \<open>PermissionError\<close> for a file that may not be executed, ...).
  \<^item> \<open>urlopen url\<close> is the answer of the server behind \<open>url\<close>.
  \<^item> \<open>open_wb_error p\<close> is the exception of \<open>open(p, "wb")\<close>, if it raises.
  \<^item> \<open>create_mode\<close> is the permission mode a newly created file gets.
  \<^item> \<open>percent_of downloaded total\<close> is \<open>int((downloaded / total) * 100)\<close>, which the
    source computes in floating point; it is left as a parameter, so that what is proved
    holds for whatever that expression yields.
  \<^item> \<open>read_zip\<close> is the zip decoder.
  \<^item> \<open>int_max_str_digits\<close> is the limit of \<open>int\<close> on the length of a decimal string,
    0 for none.
\<close>

definition APP_NAME :: string where
  "APP_NAME = ''PhoneFlasher Mac''"

definition TOOLS_DIR :: "env \<Rightarrow> path" where
  "TOOLS_DIR e = base_dir e @ ''/tools''"

definition DOWNLOADS_DIR :: "env \<Rightarrow> path" where
  "DOWNLOADS_DIR e = base_dir e @ ''/downloads''"

definition PLATFORM_TOOLS_URL :: string where
  "PLATFORM_TOOLS_URL = ''https://dl.google.com/android/repository/platform-tools-latest-darwin.zip''"

definition PLATFORM_TOOLS_ZIP :: "env \<Rightarrow> path" where
  "PLATFORM_TOOLS_ZIP e = DOWNLOADS_DIR e @ ''/platform-tools-latest-darwin.zip''"

definition adb_path :: "env \<Rightarrow> path" where
  "adb_path e = TOOLS_DIR e @ ''/platform-tools/adb''"

definition fastboot_path :: "env \<Rightarrow> path" where
  "fastboot_path e = TOOLS_DIR e @ ''/platform-tools/fastboot''"

definition path_exists :: "fs \<Rightarrow> path \<Rightarrow> bool" where
  "path_exists f p = (f p \<noteq> None)"

subsection \<open>The external tool invoker\<close>

text \<open>
  \<open>subprocess.run(cmd, capture_output=True, text=True, check=False)\<close>, called in the
  file system \<open>f\<close>. Whether the call starts a process is not decided by the presence of
  the path alone (a bare name is looked up in \<open>PATH\<close>, a parent of the path may be a
  file, the file may not be executable), so the outcome is the answer of the environment
  for the command, whatever \<open>f\<close> holds. \<open>check=False\<close>: the return code never raises.
\<close>

definition subprocess_run :: "env \<Rightarrow> fs \<Rightarrow> string list \<Rightarrow> exn + completed_process" where
  "subprocess_run e f cmd =
     (case cmd of
        [] \<Rightarrow> Inl (OtherException ''list index out of range'')
      | exe # args \<Rightarrow> program e cmd)"

text \<open>\<open>x or ""\<close> for an optional string.\<close>

definition or_empty :: "string option \<Rightarrow> string" where
  "or_empty x = (case x of None \<Rightarrow> [] | Some s \<Rightarrow> (if s = [] then [] else s))"

text \<open>The text a completed process printed: \<open>(result.stdout or "") + (result.stderr or "")\<close>.\<close>

definition raw_output :: "completed_process \<Rightarrow> string" where
  "raw_output result = or_empty (stdout result) @ or_empty (stderr result)"

definition run_cmd :: "env \<Rightarrow> fs \<Rightarrow> string list \<Rightarrow> event list \<times> (exn + string)" where
  "run_cmd e f cmd =
     (let t0 = [Log (''Running: '' @ join '' '' cmd)] in
      case subprocess_run e f cmd of
        Inl (FileNotFoundError m) \<Rightarrow>
          (t0 @ [Popen cmd False, Log ''Command not found.''], Inr [])
      | Inl exc \<Rightarrow> (t0 @ [Popen cmd False], Inl exc)
      | Inr result \<Rightarrow>
          (let output = strip (raw_output result) in
           (t0 @ [Popen cmd True] @ (if output \<noteq> [] then [Log output] else []),
            Inr output)))"

definition adb_command :: "env \<Rightarrow> fs \<Rightarrow> string list \<Rightarrow> event list \<times> (exn + unit)" where
  "adb_command e f args =
     (if \<not> path_exists f (adb_path e)
      then ([Log ''ADB not found. Download platform-tools first.''], Inr ())
      else (case run_cmd e f (adb_path e # args) of
              (t, Inl exc) \<Rightarrow> (t, Inl exc)
            | (t, Inr out) \<Rightarrow> (t, Inr ())))"

definition fastboot_command :: "env \<Rightarrow> fs \<Rightarrow> string list \<Rightarrow> event list \<times> (exn + unit)" where
  "fastboot_command e f args =
     (if \<not> path_exists f (fastboot_path e)
      then ([Log ''Fastboot not found. Download platform-tools first.''], Inr ())
      else (case run_cmd e f (fastboot_path e # args) of
              (t, Inl exc) \<Rightarrow> (t, Inl exc)
            | (t, Inr out) \<Rightarrow> (t, Inr ())))"

text \<open>\<open>_run_in_thread(target, *args)\<close>: the target runs; what it returns or raises stays
  in the thread and does not reach the caller.\<close>

definition run_in_thread :: "event list \<times> (exn + 'a) \<Rightarrow> event list" where
  "run_in_thread r = fst r"

subsection \<open>The device session orchestrator\<close>



definition reboot_bootloader :: "env \<Rightarrow> fs \<Rightarrow> event list" where
  "reboot_bootloader e f = run_in_thread (adb_command e f [''reboot'', ''bootloader''])"

definition reboot_system :: "env \<Rightarrow> fs \<Rightarrow> event list" where
  "reboot_system e f = run_in_thread (adb_command e f [''reboot''])"

definition fastboot_reboot :: "env \<Rightarrow> fs \<Rightarrow> event list" where
  "fastboot_reboot e f = run_in_thread (fastboot_command e f [''reboot''])"

text \<open>\<open>fastboot_wipe\<close>; \<open>answer\<close> is what \<open>messagebox.askyesno\<close> returns.\<close>

definition fastboot_wipe :: "env \<Rightarrow> fs \<Rightarrow> bool \<Rightarrow> event list" where
  "fastboot_wipe e f answer =
     (let t0 = [AskYesNo ''This will wipe user data. Continue?''] in
      if \<not> answer then t0
      else t0 @ run_in_thread (fastboot_command e f [''-w'']))"

text \<open>
  A Python \<open>dict\<close> keeps its keys in insertion order: \<open>d[k] = v\<close> replaces the value of a
  key that is present, in place, and appends a new key at the end.
\<close>

fun dict_set :: "('k \<times> 'v) list \<Rightarrow> 'k \<Rightarrow> 'v \<Rightarrow> ('k \<times> 'v) list" where
  "dict_set [] k v = [(k, v)]"
| "dict_set ((k', v') # d) k v =
     (if k' = k then (k, v) # d else (k', v') # dict_set d k v)"

text \<open>
  \<open>self.flash_entries\<close> as \<open>_build_flash_tab\<close> fills it: one entry widget per row, named
  here by the label of its row. The text the user typed in a widget is read with
  \<open>entry_get\<close>.
\<close>

definition flash_entries :: "(string \<times> string) list" where
  "flash_entries =
     foldl (\<lambda>d (label, key). dict_set d key label) []
       [(''Boot image'', ''boot''), (''Recovery image'', ''recovery''),
        (''System image'', ''system''), (''Vendor image'', ''vendor'')]"

definition selections_of :: "(string \<Rightarrow> string) \<Rightarrow> (string \<times> string) list" where
  "selections_of entry_get =
     foldl (\<lambda>selections (key, entry).
              (let v = strip (entry_get entry) in
               if v \<noteq> [] then dict_set selections key v else selections))
       [] flash_entries"

fun flash_images :: "env \<Rightarrow> fs \<Rightarrow> (string \<times> string) list \<Rightarrow> event list \<times> (exn + unit)" where
  "flash_images e f [] = ([Log ''Flash sequence complete.''], Inr ())"
| "flash_images e f ((part, image_path) # rest) =
     (let t0 = [Log (''Flashing '' @ part @ '' from '' @ image_path @ ''...'')] in
      case fastboot_command e f [''flash'', part, image_path] of
        (t, Inl exc) \<Rightarrow> (t0 @ t, Inl exc)
      | (t, Inr u) \<Rightarrow>
          (case flash_images e f rest of (t', r) \<Rightarrow> (t0 @ t @ t', r)))"

definition flash_selected :: "env \<Rightarrow> fs \<Rightarrow> (string \<Rightarrow> string) \<Rightarrow> event list" where
  "flash_selected e f entry_get =
     (let selections = selections_of entry_get in
      if selections = [] then [ShowInfo ''Select at least one image to flash.'']
      else run_in_thread (flash_images e f selections))"

text \<open>The command line of one flash, the commands for which a child process was created,
  and all the calls made.\<close>

definition flash_cmd :: "env \<Rightarrow> string \<times> string \<Rightarrow> string list" where
  "flash_cmd e = (\<lambda>(part, image_path). [fastboot_path e, ''flash'', part, image_path])"


text \<open>A call after which \<open>_run_cmd\<close> returns to its caller: the process ran, or the call
  raised \<open>FileNotFoundError\<close>.\<close>

definition run_returns :: "env \<Rightarrow> string list \<Rightarrow> bool" where
  "run_returns e cmd = (case program e cmd of Inr p \<Rightarrow> True | Inl exc \<Rightarrow> is_not_found exc)"

fun spawned :: "event list \<Rightarrow> string list list" where
  "spawned [] = []"
| "spawned (Popen cmd True # t) = cmd # spawned t"
| "spawned (ev # t) = spawned t"

fun popen_calls :: "event list \<Rightarrow> string list list" where
  "popen_calls [] = []"
| "popen_calls (Popen cmd b # t) = cmd # popen_calls t"
| "popen_calls (ev # t) = popen_calls t"

subsection \<open>The downloader\<close>

text \<open>\<open>open(p, "wb")\<close> followed by writes and the close: the file holds exactly what was
  written; an existing file keeps its mode, a new one gets \<open>create_mode\<close>.\<close>

definition write_file :: "env \<Rightarrow> fs \<Rightarrow> path \<Rightarrow> bytes \<Rightarrow> fs" where
  "write_file e f p data =
     f(p \<mapsto> \<lparr>content = data,
              mode = (case f p of None \<Rightarrow> create_mode e | Some n \<Rightarrow> mode n)\<rparr>)"

text \<open>
  The \<open>while True\<close> loop of \<open>_download_file\<close>, over the results of the successive
  \<open>response.read(chunk_size)\<close> calls; a response whose list is used up is at its end and
  reads as \<open>b""\<close>. The function returns the bytes written to the handle, the buckets
  announced, in order, and the exception that ended the loop, if one did.
\<close>

fun read_loop ::
  "(nat \<Rightarrow> nat \<Rightarrow> int) \<Rightarrow> nat \<Rightarrow> read_result list \<Rightarrow> nat \<Rightarrow> int \<Rightarrow> bytes \<times> int list \<times> exn option"
where
  "read_loop pc total_bytes [] downloaded last_logged = ([], [], None)"
| "read_loop pc total_bytes (ReadError exc # rest) downloaded last_logged = ([], [], Some exc)"
| "read_loop pc total_bytes (Chunk chunk # rest) downloaded last_logged =
     (if chunk = [] then ([], [], None)
      else
        (let downloaded' = downloaded + length chunk in
         if total_bytes \<noteq> 0 then
           (let percent = pc downloaded' total_bytes;
                bucket = percent div 10
            in if bucket > last_logged
               then (case read_loop pc total_bytes rest downloaded' bucket of
                       (w, bs, r) \<Rightarrow> (chunk @ w, bucket # bs, r))
               else (case read_loop pc total_bytes rest downloaded' last_logged of
                       (w, bs, r) \<Rightarrow> (chunk @ w, bs, r)))
         else (case read_loop pc total_bytes rest downloaded' last_logged of
                 (w, bs, r) \<Rightarrow> (chunk @ w, bs, r))))"

definition progress_line :: "path \<Rightarrow> int \<Rightarrow> event" where
  "progress_line dest bucket =
     Log (''Downloading '' @ path_name dest @ '': '' @ str_int (bucket * 10) @ ''%'')"

text \<open>
  The line \<open>total = int(total_header) if total_header and total_header.isdigit() else 0\<close>.
  It runs before the destination is opened, and \<open>int\<close> may raise.
\<close>

definition content_total :: "env \<Rightarrow> response \<Rightarrow> exn + nat" where
  "content_total e resp =
     (let total_header = content_length resp in
      case total_header of
        None \<Rightarrow> Inr 0
      | Some h \<Rightarrow> if h \<noteq> [] \<and> isdigit h then py_int (int_max_str_digits e) h else Inr 0)"

text \<open>\<open>_download_file\<close>. The writes to the open file are taken to succeed.\<close>

definition download_file :: "env \<Rightarrow> fs \<Rightarrow> string \<Rightarrow> path \<Rightarrow> event list \<times> fs \<times> (exn + unit)" where
  "download_file e f url dest =
     (case urlopen e url of
        Inl exc \<Rightarrow> ([UrlOpen url], f, Inl exc)
      | Inr resp \<Rightarrow>
          (case content_total e resp of
             Inl exc \<Rightarrow> ([UrlOpen url], f, Inl exc)
           | Inr total_bytes \<Rightarrow>
               (case open_wb_error e dest of
                  Some exc \<Rightarrow> ([UrlOpen url], f, Inl exc)
                | None \<Rightarrow>
                    (case read_loop (percent_of e) total_bytes (body resp) 0 (- 1) of
                       (written, buckets, r) \<Rightarrow>
                         (UrlOpen url # map (progress_line dest) buckets,
                          write_file e f dest written,
                          (case r of None \<Rightarrow> Inr () | Some exc \<Rightarrow> Inl exc))))))"

text \<open>\<open>dest.exists() and dest.stat().st_size > 0\<close>.\<close>

definition dest_ok :: "fs \<Rightarrow> path \<Rightarrow> bool" where
  "dest_ok f dest = (case f dest of None \<Rightarrow> False | Some n \<Rightarrow> length (content n) > 0)"

text \<open>\<open>_download_first_available\<close>. \<open>except Exception\<close> catches every exception of the
  attempt; the loop then goes on with the next URL.\<close>

fun download_first_available ::
  "env \<Rightarrow> fs \<Rightarrow> string list \<Rightarrow> path \<Rightarrow> event list \<times> fs \<times> (exn + bool)"
where
  "download_first_available e f [] dest = ([], f, Inr False)"
| "download_first_available e f (url # urls) dest =
     (case download_file e f url dest of
        (t, f1, Inr u) \<Rightarrow>
          if dest_ok f1 dest then (t, f1, Inr True)
          else (case download_first_available e f1 urls dest of
                  (t', f2, r) \<Rightarrow> (t @ t', f2, r))
      | (t, f1, Inl exc) \<Rightarrow>
          (case download_first_available e f1 urls dest of
             (t', f2, r) \<Rightarrow>
               (t @ [Log (''Download failed: '' @ url @ '' ('' @ exn_str exc @ '')'')] @ t',
                f2, r)))"

text \<open>The body a response delivers when no read fails: the chunks up to the first empty
  one.\<close>

fun body_bytes :: "read_result list \<Rightarrow> bytes" where
  "body_bytes [] = []"
| "body_bytes (ReadError exc # rest) = []"
| "body_bytes (Chunk chunk # rest) = (if chunk = [] then [] else chunk @ body_bytes rest)"

text \<open>The exception a response delivers instead: the first failing read before the
  end of the body.\<close>

fun body_error :: "read_result list \<Rightarrow> exn option" where
  "body_error [] = None"
| "body_error (ReadError exc # rest) = Some exc"
| "body_error (Chunk chunk # rest) = (if chunk = [] then None else body_error rest)"

text \<open>One attempt counts as a success when the transfer returns and the destination
  then exists with a size above zero.\<close>

definition attempt_ok :: "env \<Rightarrow> fs \<Rightarrow> string \<Rightarrow> path \<Rightarrow> bool" where
  "attempt_ok e f url dest =
     (case download_file e f url dest of
        (t, f1, Inr u) \<Rightarrow> dest_ok f1 dest
      | (t, f1, Inl exc) \<Rightarrow> False)"

text \<open>The URLs opened, in order.\<close>

fun url_opens :: "event list \<Rightarrow> string list" where
  "url_opens [] = []"
| "url_opens (UrlOpen url # t) = url # url_opens t"
| "url_opens (ev # t) = url_opens t"

subsection \<open>The archive installer\<close>

text \<open>\<open>zip_ref.extractall(dir)\<close> on the members the decoder yields.\<close>

definition extractall :: "env \<Rightarrow> fs \<Rightarrow> path \<Rightarrow> (path \<times> bytes) list \<Rightarrow> fs" where
  "extractall e f dir members =
     foldl (\<lambda>g (name, data). write_file e g (dir @ ''/'' @ name) data) f members"

text \<open>\<open>tool.chmod(tool.stat().st_mode | 0o111)\<close> for one path, if it exists.\<close>

definition chmod_exec :: "fs \<Rightarrow> path \<Rightarrow> fs" where
  "chmod_exec f tool =
     (case f tool of None \<Rightarrow> f | Some n \<Rightarrow> f(tool \<mapsto> n\<lparr>mode := or (mode n) 73\<rparr>))"

definition ensure_executable :: "env \<Rightarrow> fs \<Rightarrow> fs" where
  "ensure_executable e f = foldl chmod_exec f [adb_path e, fastboot_path e]"

text \<open>
  Lines 316 to 324 of \<open>_download_platform_tools\<close>: the extraction of the downloaded
  archive. The function has no return value; it leaves early, before the chmod and the
  last log line, when the archive is corrupted. Any other exception is not caught.
\<close>

definition extract_platform_tools :: "env \<Rightarrow> fs \<Rightarrow> event list \<times> fs \<times> (exn + unit)" where
  "extract_platform_tools e f =
     (let t0 = [Log ''Extracting platform-tools...''] in
      case f (PLATFORM_TOOLS_ZIP e) of
        None \<Rightarrow>
          (t0, f, Inl (FileNotFoundError (''No such file or directory: '' @ PLATFORM_TOOLS_ZIP e)))
      | Some z \<Rightarrow>
          (case read_zip e (content z) of
             ZipBad members \<Rightarrow>
               (t0 @ [Log ''Downloaded platform-tools zip is corrupted.''],
                extractall e f (TOOLS_DIR e) members, Inr ())
           | ZipError members exc \<Rightarrow>
               (t0, extractall e f (TOOLS_DIR e) members, Inl exc)
           | ZipOk members \<Rightarrow>
               (t0 @ [Log ''Platform-tools extracted.''],
                ensure_executable e (extractall e f (TOOLS_DIR e) members), Inr ())))"

text \<open>\<open>_download_platform_tools\<close>. \<open>ensure_dirs\<close> only creates directories, which the
  file map does not hold.\<close>

definition download_platform_tools :: "env \<Rightarrow> fs \<Rightarrow> event list \<times> fs \<times> (exn + unit)" where
  "download_platform_tools e f =
     (let t0 = [Log ''Downloading platform-tools...''] in
      case download_first_available e f [PLATFORM_TOOLS_URL] (PLATFORM_TOOLS_ZIP e) of
        (t1, f1, Inl exc) \<Rightarrow> (t0 @ t1, f1, Inl exc)
      | (t1, f1, Inr success) \<Rightarrow>
          if \<not> success then (t0 @ t1 @ [Log ''Failed to download platform-tools.''], f1, Inr ())
          else (case extract_platform_tools e f1 of
                  (t2, f2, r) \<Rightarrow> (t0 @ t1 @ t2, f2, r)))"

subsection \<open>A concrete environment\<close>

text \<open>
  An installation under \<open>/app\<close> used to run the definitions. \<open>adb devices\<close> prints
  the header line only; every other command prints a line and exits with status 1. One
  URL answers 404, one delivers four bytes in two chunks, one breaks after two bytes,
  one delivers four bytes of an announced forty, one announces its length as a
  superscript two, one delivers an archive. Of the archives, one decodes, one has a
  damaged compressed stream, the others are no zip files.
\<close>

definition ex_process :: completed_process where
  "ex_process = \<lparr>returncode = 1, stdout = Some '' ok'', stderr = Some [CHR 0x0A]\<rparr>"

definition ex_program :: "string list \<Rightarrow> exn + completed_process" where
  "ex_program cmd =
     (if cmd = [''/app/tools/platform-tools/adb'', ''devices'']
      then Inr \<lparr>returncode = 0,
                stdout = Some (''List of devices attached'' @ [CHR 0x0A]),
                stderr = Some []\<rparr>
      else Inr ex_process)"








definition ex_urlopen :: "string \<Rightarrow> exn + response" where
  "ex_urlopen url =
     (if url = ''http://a'' then Inl (OtherException ''HTTP Error 404: Not Found'')
      else if url = ''http://b''
        then Inr \<lparr>content_length = Some ''4'', body = [Chunk ''ab'', Chunk ''cd'']\<rparr>
      else if url = ''http://c''
        then Inr \<lparr>content_length = None,
                  body = [Chunk ''xy'', ReadError (OtherException ''timed out'')]\<rparr>
      else if url = ''http://d''
        then Inr \<lparr>content_length = Some ''40'',
                  body = [Chunk ''a'', Chunk ''b'', Chunk ''c'', Chunk ''d'']\<rparr>
      else if url = ''http://e''
        then Inr \<lparr>content_length = Some [CHR 0xB2], body = [Chunk ''zz'']\<rparr>
      else if url = PLATFORM_TOOLS_URL
        then Inr \<lparr>content_length = Some ''2'', body = [Chunk ''PK'']\<rparr>
      else Inl (OtherException ''unknown url type''))"

definition ex_read_zip :: "bytes \<Rightarrow> zip_outcome" where
  "ex_read_zip data =
     (if data = ''PK''
      then ZipOk [(''platform-tools/adb'', ''A''), (''platform-tools/fastboot'', ''F'')]
      else if data = ''PKx''
      then ZipError [(''platform-tools/adb'', ''A'')]
             (OtherException ''Error -3 while decompressing data: invalid block type'')
      else ZipBad [])"

definition ex_env :: env where
  "ex_env = \<lparr>base_dir = ''/app'',
             program = ex_program,
             urlopen = ex_urlopen,
             open_wb_error = (\<lambda>p. None),
             create_mode = 420,
             percent_of = (\<lambda>downloaded total. int ((downloaded * 100) div total)),
             read_zip = ex_read_zip,
             int_max_str_digits = 4300\<rparr>"









definition ex_fs :: fs where
  "ex_fs = [''/app/tools/platform-tools/adb'' \<mapsto> \<lparr>content = ''A'', mode = 493\<rparr>,
            ''/app/tools/platform-tools/fastboot'' \<mapsto> \<lparr>content = ''F'', mode = 493\<rparr>]"

definition ex_fs_old :: fs where
  "ex_fs_old = [''/app/downloads/x.dmg'' \<mapsto> \<lparr>content = ''old'', mode = 420\<rparr>]"






definition ex_entries_vb :: "string \<Rightarrow> string" where
  "ex_entries_vb label =
     (if label = ''Vendor image'' then ''/v.img''
      else if label = ''Boot image'' then ''/a.img '' else [])"

subsection \<open>Whitespace trimming\<close>

lemma lstrip_decomp: "\<exists>l. s = l @ lstrip s \<and> list_all is_space l"
proof -
  have "s = takeWhile is_space s @ lstrip s"
    by (simp add: lstrip_def)
  moreover have "list_all is_space (takeWhile is_space s)"
    by (simp add: list_all_iff) (meson set_takeWhileD)
  ultimately show ?thesis by blast
qed

lemma rstrip_decomp: "\<exists>r. s = rstrip s @ r \<and> list_all is_space r"
proof -
  let ?r = "rev (takeWhile is_space (rev s))"
  have "rstrip s @ ?r = rev (takeWhile is_space (rev s) @ dropWhile is_space (rev s))"
    by (simp only: rstrip_def rev_append)
  also have "\<dots> = rev (rev s)"
    by (simp only: takeWhile_dropWhile_id)
  finally have "s = rstrip s @ ?r"
    by simp
  moreover have "list_all is_space ?r"
    by (simp add: list_all_iff) (meson set_takeWhileD)
  ultimately show ?thesis by blast
qed

lemma strip_decomp:
  "\<exists>l r. s = l @ strip s @ r \<and> list_all is_space l \<and> list_all is_space r"
proof -
  obtain l where l: "s = l @ lstrip s" "list_all is_space l"
    using lstrip_decomp by blast
  obtain r where r: "lstrip s = rstrip (lstrip s) @ r" "list_all is_space r"
    using rstrip_decomp by blast
  have "s = l @ strip s @ r"
    using l(1) r(1) by (simp add: strip_def)
  then show ?thesis using l(2) r(2) by blast
qed

lemma lstrip_hd: "lstrip s \<noteq> [] \<Longrightarrow> \<not> is_space (hd (lstrip s))"
  unfolding lstrip_def by (rule hd_dropWhile)

lemma rstrip_last: "rstrip s \<noteq> [] \<Longrightarrow> \<not> is_space (last (rstrip s))"
  unfolding rstrip_def by (simp add: last_rev hd_dropWhile)

lemma rstrip_hd: "rstrip s \<noteq> [] \<Longrightarrow> \<not> is_space (hd s) \<Longrightarrow> hd (rstrip s) = hd s"
proof -
  assume a: "rstrip s \<noteq> []"
  obtain r where r: "s = rstrip s @ r" using rstrip_decomp by blast
  then have "hd s = hd (rstrip s @ r)" by simp
  then show "hd (rstrip s) = hd s" using a by simp
qed

lemma strip_ends:
  assumes "strip s \<noteq> []"
  shows "\<not> is_space (hd (strip s))" and "\<not> is_space (last (strip s))"
proof -
  have ne: "lstrip s \<noteq> []"
    using assms by (auto simp: strip_def rstrip_def)
  have "hd (rstrip (lstrip s)) = hd (lstrip s)"
    using assms lstrip_hd [OF ne] by (intro rstrip_hd) (simp_all add: strip_def)
  then show "\<not> is_space (hd (strip s))"
    using lstrip_hd [OF ne] by (simp add: strip_def)
  show "\<not> is_space (last (strip s))"
    using assms rstrip_last by (simp add: strip_def)
qed




subsection \<open>Substring test\<close>



subsection \<open>Events\<close>

lemma spawned_append: "spawned (a @ b) = spawned a @ spawned b"
  by (induction a rule: spawned.induct) simp_all

lemma popen_calls_append: "popen_calls (a @ b) = popen_calls a @ popen_calls b"
  by (induction a rule: popen_calls.induct) simp_all

lemma spawned_map_Log: "spawned (map Log xs) = []"
  by (induction xs) simp_all

lemma popen_calls_map_Log: "popen_calls (map Log xs) = []"
  by (induction xs) simp_all

subsection \<open>The invoker: what a call returns\<close>

lemma or_empty_case: "or_empty x = (case x of None \<Rightarrow> [] | Some s \<Rightarrow> s)"
  by (simp add: or_empty_def split: option.splits)


lemma subprocess_run_Cons: "subprocess_run e f (exe # args) = program e (exe # args)"
  by (simp add: subprocess_run_def)

lemma run_cmd_completed:
  assumes "subprocess_run e f cmd = Inr p"
  shows "run_cmd e f cmd =
           (Log (''Running: '' @ join '' '' cmd) # Popen cmd True #
              (if strip (raw_output p) \<noteq> [] then [Log (strip (raw_output p))] else []),
            Inr (strip (raw_output p)))"
  using assms by (simp add: run_cmd_def Let_def)

lemma run_cmd_not_found:
  assumes "subprocess_run e f cmd = Inl exc" and "is_not_found exc"
  shows "run_cmd e f cmd =
           ([Log (''Running: '' @ join '' '' cmd), Popen cmd False, Log ''Command not found.''],
            Inr [])"
  using assms by (cases exc) (simp_all add: run_cmd_def)

lemma run_cmd_raises:
  assumes "subprocess_run e f cmd = Inl exc" and "\<not> is_not_found exc"
  shows "run_cmd e f cmd = ([Log (''Running: '' @ join '' '' cmd), Popen cmd False], Inl exc)"
  using assms by (cases exc) (simp_all add: run_cmd_def)

lemma run_cmd_calls: "popen_calls (fst (run_cmd e f cmd)) = [cmd]"
proof (cases "subprocess_run e f cmd")
  case (Inr p)
  from run_cmd_completed [OF Inr] show ?thesis by simp
next
  case (Inl exc)
  show ?thesis
  proof (cases "is_not_found exc")
    case True
    from run_cmd_not_found [OF Inl True] show ?thesis by simp
  next
    case False
    from run_cmd_raises [OF Inl False] show ?thesis by simp
  qed
qed


text \<open>
  Claim C5. When \<open>subprocess.run\<close> returns a completed process, \<open>_run_cmd\<close> returns
  the standard output followed by the standard error, with the whitespace at both ends
  removed: the text is what is left of the concatenation after a run of whitespace is
  cut from each end, and it neither starts nor ends with whitespace. The return code is
  not read: a run that differs only in its return code gives the same events and the
  same text.
\<close>

theorem run_cmd_output:
  assumes "subprocess_run e f cmd = Inr p"
      and "subprocess_run e' f' cmd = Inr (p\<lparr>returncode := rc\<rparr>)"
  shows "(\<exists>out l r.
            snd (run_cmd e f cmd) = Inr out
          \<and> out = strip ((case stdout p of None \<Rightarrow> [] | Some s \<Rightarrow> s) @
                          (case stderr p of None \<Rightarrow> [] | Some s \<Rightarrow> s))
          \<and> (case stdout p of None \<Rightarrow> [] | Some s \<Rightarrow> s) @
             (case stderr p of None \<Rightarrow> [] | Some s \<Rightarrow> s) = l @ out @ r
          \<and> list_all is_space l \<and> list_all is_space r
          \<and> (out \<noteq> [] \<longrightarrow> \<not> is_space (hd out) \<and> \<not> is_space (last out)))
       \<and> run_cmd e' f' cmd = run_cmd e f cmd"
proof -
  let ?raw = "(case stdout p of None \<Rightarrow> [] | Some s \<Rightarrow> s) @
              (case stderr p of None \<Rightarrow> [] | Some s \<Rightarrow> s)"
  have raw: "raw_output p = ?raw"
    by (simp add: raw_output_def or_empty_case)
  have out: "snd (run_cmd e f cmd) = Inr (strip ?raw)"
    using run_cmd_completed [OF assms(1)] raw by simp
  obtain l r where lr: "?raw = l @ strip ?raw @ r" "list_all is_space l" "list_all is_space r"
    using strip_decomp [of ?raw] by blast
  have ends: "strip ?raw \<noteq> [] \<longrightarrow> \<not> is_space (hd (strip ?raw)) \<and> \<not> is_space (last (strip ?raw))"
    using strip_ends by blast
  have same: "run_cmd e' f' cmd = run_cmd e f cmd"
    using run_cmd_completed [OF assms(1)] run_cmd_completed [OF assms(2)]
    by (simp add: raw_output_def)
  show ?thesis
    using out lr ends same by blast
qed

theorem run_cmd_output_witness:
  "subprocess_run ex_env ex_fs [''/app/tools/platform-tools/fastboot'', ''devices''] = Inr ex_process
   \<and> subprocess_run (ex_env\<lparr>program := \<lambda>cmd. Inr (ex_process\<lparr>returncode := 0\<rparr>)\<rparr>) ex_fs
        [''/app/tools/platform-tools/fastboot'', ''devices''] = Inr (ex_process\<lparr>returncode := 0\<rparr>)
   \<and> snd (run_cmd ex_env ex_fs [''/app/tools/platform-tools/fastboot'', ''devices'']) = Inr ''ok''
   \<and> run_cmd (ex_env\<lparr>program := \<lambda>cmd. Inr (ex_process\<lparr>returncode := 0\<rparr>)\<rparr>) ex_fs
        [''/app/tools/platform-tools/fastboot'', ''devices'']
      = run_cmd ex_env ex_fs [''/app/tools/platform-tools/fastboot'', ''devices'']"
proof -
  have h1: "subprocess_run ex_env ex_fs [''/app/tools/platform-tools/fastboot'', ''devices''] = Inr ex_process"
    by code_simp
  have h2: "subprocess_run (ex_env\<lparr>program := \<lambda>cmd. Inr (ex_process\<lparr>returncode := 0\<rparr>)\<rparr>) ex_fs
        [''/app/tools/platform-tools/fastboot'', ''devices''] = Inr (ex_process\<lparr>returncode := 0\<rparr>)"
    by code_simp
  have v: "snd (run_cmd ex_env ex_fs [''/app/tools/platform-tools/fastboot'', ''devices'']) = Inr ''ok''"
    by code_simp
  show ?thesis
    using h1 h2 v run_cmd_output [OF h1 h2] by simp
qed

subsection \<open>The orchestrator\<close>

text \<open>
  Claim C2. \<open>fastboot_wipe\<close> asks before anything else. When the answer is negative it
  calls no subprocess at all; any subprocess call it makes was preceded by the question,
  answered affirmatively, and is \<open>fastboot -w\<close>.
\<close>

theorem fastboot_wipe_gate:
  "(\<not> answer \<longrightarrow> popen_calls (fastboot_wipe e f answer) = [])
   \<and> (cmd \<in> set (popen_calls (fastboot_wipe e f answer)) \<longrightarrow>
        answer \<and> cmd = [fastboot_path e, ''-w''] \<and>
        (\<exists>t. fastboot_wipe e f answer = AskYesNo ''This will wipe user data. Continue?'' # t))"
  by (auto simp: fastboot_wipe_def run_in_thread_def fastboot_command_def run_cmd_def Let_def
           split: sum.splits exn.splits if_splits)

theorem fastboot_wipe_gate_witness:
  "\<not> False \<and> popen_calls (fastboot_wipe ex_env ex_fs False) = []
   \<and> [''/app/tools/platform-tools/fastboot'', ''-w''] \<in> set (popen_calls (fastboot_wipe ex_env ex_fs True))
   \<and> fastboot_wipe ex_env ex_fs True =
       [AskYesNo ''This will wipe user data. Continue?'',
        Log ''Running: /app/tools/platform-tools/fastboot -w'',
        Popen [''/app/tools/platform-tools/fastboot'', ''-w''] True, Log ''ok'']"
proof -
  have a: "popen_calls (fastboot_wipe ex_env ex_fs False) = []"
    by code_simp
  have b: "fastboot_wipe ex_env ex_fs True =
       [AskYesNo ''This will wipe user data. Continue?'',
        Log ''Running: /app/tools/platform-tools/fastboot -w'',
        Popen [''/app/tools/platform-tools/fastboot'', ''-w''] True, Log ''ok'']"
    by code_simp
  have c: "[''/app/tools/platform-tools/fastboot'', ''-w''] \<in> set (popen_calls (fastboot_wipe ex_env ex_fs True))"
    by (simp add: b)
  show ?thesis
    using a b c
      fastboot_wipe_gate [where answer = False and e = ex_env and f = ex_fs]
      fastboot_wipe_gate [where answer = True and e = ex_env and f = ex_fs
                          and cmd = "[''/app/tools/platform-tools/fastboot'', ''-w'']"]
    by simp
qed











subsection \<open>The flash sequence\<close>

lemma fastboot_command_returns:
  assumes "path_exists f (fastboot_path e)"
      and "run_returns e (fastboot_path e # args)"
  shows "\<exists>logged. fastboot_command e f args =
           (Log (''Running: '' @ join '' '' (fastboot_path e # args)) #
            Popen (fastboot_path e # args) (\<not> isl (program e (fastboot_path e # args))) #
            map Log logged, Inr ())"
proof (cases "program e (fastboot_path e # args)")
  case (Inr p)
  then have "subprocess_run e f (fastboot_path e # args) = Inr p"
    by (simp add: subprocess_run_Cons)
  from run_cmd_completed [OF this] show ?thesis
    using assms(1) Inr
    by (auto simp: fastboot_command_def intro: exI [of _ "[]"] exI [of _ "[x]" for x])
next
  case (Inl exc)
  then have s: "subprocess_run e f (fastboot_path e # args) = Inl exc"
    by (simp add: subprocess_run_Cons)
  have "is_not_found exc"
    using assms(2) Inl by (simp add: run_returns_def)
  from run_cmd_not_found [OF s this] show ?thesis
    using assms(1) Inl
    by (auto simp: fastboot_command_def intro: exI [of _ "[''Command not found.'']"])
qed


lemma fastboot_command_present:
  assumes "path_exists f (fastboot_path e)"
      and "program e (fastboot_path e # args) = Inr p"
  shows "\<exists>logged. fastboot_command e f args =
           (Log (''Running: '' @ join '' '' (fastboot_path e # args)) #
            Popen (fastboot_path e # args) True # map Log logged, Inr ())"
proof -
  have "run_returns e (fastboot_path e # args)"
    using assms(2) by (simp add: run_returns_def)
  from fastboot_command_returns [OF assms(1) this] show ?thesis
    using assms(2) by simp
qed

lemma flash_images_continue:
  assumes "path_exists f (fastboot_path e)"
      and "\<forall>s \<in> set selections. run_returns e (flash_cmd e s)"
  shows "snd (flash_images e f selections) = Inr ()
       \<and> popen_calls (fst (flash_images e f selections)) = map (flash_cmd e) selections
       \<and> spawned (fst (flash_images e f selections)) =
           filter (\<lambda>cmd. \<not> isl (program e cmd)) (map (flash_cmd e) selections)
       \<and> (\<exists>t. fst (flash_images e f selections) = t @ [Log ''Flash sequence complete.''])"
  using assms(2)
proof (induction selections)
  case Nil
  then show ?case by simp
next
  case (Cons s rest)
  obtain part image_path where s: "s = (part, image_path)" by (cases s)
  let ?cmd = "fastboot_path e # [''flash'', part, image_path]"
  from Cons.prems have rr: "run_returns e ?cmd"
    by (simp add: s flash_cmd_def)
  from fastboot_command_returns [OF assms(1) rr] obtain logged where
    fc: "fastboot_command e f [''flash'', part, image_path] =
           (Log (''Running: '' @ join '' '' ?cmd) #
            Popen ?cmd (\<not> isl (program e ?cmd)) # map Log logged, Inr ())"
    by blast
  obtain t' r' where rest: "flash_images e f rest = (t', r')" by (cases "flash_images e f rest")
  from Cons.IH Cons.prems rest have ih:
    "r' = Inr ()" "popen_calls t' = map (flash_cmd e) rest"
    "spawned t' = filter (\<lambda>cmd. \<not> isl (program e cmd)) (map (flash_cmd e) rest)"
    "\<exists>t. t' = t @ [Log ''Flash sequence complete.'']"
    by auto
  from ih(4) obtain t0 where t0: "t' = t0 @ [Log ''Flash sequence complete.'']" by blast
  have "fst (flash_images e f (s # rest)) =
          (Log (''Flashing '' @ part @ '' from '' @ image_path @ ''...'') #
           Log (''Running: '' @ join '' '' ?cmd) #
           Popen ?cmd (\<not> isl (program e ?cmd)) # map Log logged @ t0)
          @ [Log ''Flash sequence complete.'']"
    by (simp add: s fc rest t0)
  then have last: "\<exists>t. fst (flash_images e f (s # rest)) = t @ [Log ''Flash sequence complete.'']"
    by blast
  have "snd (flash_images e f (s # rest)) = Inr ()"
    by (simp add: s fc rest ih(1))
  moreover have "popen_calls (fst (flash_images e f (s # rest))) = map (flash_cmd e) (s # rest)"
    by (simp add: s fc rest popen_calls_append popen_calls_map_Log ih(2) flash_cmd_def)
  moreover have "spawned (fst (flash_images e f (s # rest))) =
           filter (\<lambda>cmd. \<not> isl (program e cmd)) (map (flash_cmd e) (s # rest))"
    by (cases "isl (program e ?cmd)")
       (simp_all add: s fc rest spawned_append spawned_map_Log ih(3) flash_cmd_def)
  ultimately show ?case using last by blast
qed

lemma flash_images_present:
  assumes "path_exists f (fastboot_path e)"
      and "\<forall>s \<in> set selections. \<exists>p. program e (flash_cmd e s) = Inr p"
  shows "snd (flash_images e f selections) = Inr ()
       \<and> spawned (fst (flash_images e f selections)) = map (flash_cmd e) selections
       \<and> popen_calls (fst (flash_images e f selections)) = map (flash_cmd e) selections
       \<and> (\<exists>t. fst (flash_images e f selections) = t @ [Log ''Flash sequence complete.''])"
proof -
  have rr: "\<forall>s \<in> set selections. run_returns e (flash_cmd e s)"
    using assms(2) by (auto simp: run_returns_def)
  have "filter (\<lambda>cmd. \<not> isl (program e cmd)) (map (flash_cmd e) selections) =
          map (flash_cmd e) selections"
    using assms(2) by (auto simp: filter_id_conv)
  with flash_images_continue [OF assms(1) rr] show ?thesis by simp
qed






lemma flash_images_absent:
  assumes "\<not> path_exists f (fastboot_path e)"
  shows "flash_images e f selections =
           (concat (map (\<lambda>(part, image_path).
                      [Log (''Flashing '' @ part @ '' from '' @ image_path @ ''...''),
                       Log ''Fastboot not found. Download platform-tools first.'']) selections)
            @ [Log ''Flash sequence complete.''], Inr ())"
  using assms by (induction selections) (auto simp: fastboot_command_def)

lemma selections_of_eq:
  "selections_of entry_get =
     map (\<lambda>(label, key). (key, strip (entry_get label)))
       (filter (\<lambda>(label, key). strip (entry_get label) \<noteq> [])
          [(''Boot image'', ''boot''), (''Recovery image'', ''recovery''),
           (''System image'', ''system''), (''Vendor image'', ''vendor'')])"
  by (simp add: selections_of_def flash_entries_def Let_def)

lemma fastboot_command_calls:
  "popen_calls (fst (fastboot_command e f args)) =
     (if path_exists f (fastboot_path e) then [fastboot_path e # args] else [])"
  using run_cmd_calls [of e f "fastboot_path e # args"]
  by (auto simp: fastboot_command_def split: prod.splits sum.splits)

lemma flash_images_calls_prefix:
  "\<exists>rest. map (flash_cmd e) selections = popen_calls (fst (flash_images e f selections)) @ rest"
proof (cases "path_exists f (fastboot_path e)")
  case False
  have "popen_calls (concat (map (\<lambda>(part, image_path).
                      [Log (''Flashing '' @ part @ '' from '' @ image_path @ ''...''),
                       Log ''Fastboot not found. Download platform-tools first.'']) sel)) = []" for sel
    by (induction sel) auto
  then show ?thesis
    by (simp add: flash_images_absent [OF False] popen_calls_append)
next
  case True
  show ?thesis
  proof (induction selections)
    case Nil
    then show ?case by simp
  next
    case (Cons s rest)
    obtain part image_path where s: "s = (part, image_path)" by (cases s)
    obtain t r where fc: "fastboot_command e f [''flash'', part, image_path] = (t, r)"
      by (cases "fastboot_command e f [''flash'', part, image_path]")
    have calls: "popen_calls t = [flash_cmd e s]"
      using fastboot_command_calls [of e f "[''flash'', part, image_path]"] True
      by (simp add: fc s flash_cmd_def)
    show ?case
    proof (cases r)
      case (Inl exc)
      then show ?thesis by (simp add: s fc calls [unfolded s])
    next
      case (Inr u)
      obtain t' r' where rest: "flash_images e f rest = (t', r')"
        by (cases "flash_images e f rest")
      from Cons.IH rest obtain more where "map (flash_cmd e) rest = popen_calls t' @ more"
        by auto
      then show ?thesis
        by (simp add: s fc Inr rest popen_calls_append calls [unfolded s])
    qed
  qed
qed




text \<open>
  Claim C10. \<open>flash_entries\<close> holds the keys in the order boot, recovery, system,
  vendor. The selection built by \<open>flash_selected\<close> holds, in that order, the keys whose
  entry text is not empty after trimming, each with its trimmed text. The calls that
  \<open>flash_selected\<close> makes are always an initial part of the flash commands of the
  selection in that order, and all of them, each starting a process, when the fastboot
  executable exists and every run of it returns.
\<close>

theorem flash_order:
  "map fst flash_entries = [''boot'', ''recovery'', ''system'', ''vendor'']
 \<and> selections_of entry_get =
     map (\<lambda>(label, key). (key, strip (entry_get label)))
       (filter (\<lambda>(label, key). strip (entry_get label) \<noteq> [])
          [(''Boot image'', ''boot''), (''Recovery image'', ''recovery''),
           (''System image'', ''system''), (''Vendor image'', ''vendor'')])
 \<and> map fst (selections_of entry_get) =
     filter (\<lambda>key. key \<in> set (map fst (selections_of entry_get)))
       [''boot'', ''recovery'', ''system'', ''vendor'']
 \<and> (\<exists>rest. map (\<lambda>(part, image_path). [fastboot_path e, ''flash'', part, image_path])
              (selections_of entry_get)
            = popen_calls (flash_selected e f entry_get) @ rest)
 \<and> (path_exists f (fastboot_path e)
      \<and> (\<forall>(part, image_path) \<in> set (selections_of entry_get).
            \<exists>p. program e [fastboot_path e, ''flash'', part, image_path] = Inr p) \<longrightarrow>
      spawned (flash_selected e f entry_get) =
        map (\<lambda>(part, image_path). [fastboot_path e, ''flash'', part, image_path])
          (selections_of entry_get))"
proof -
  have a: "map fst flash_entries = [''boot'', ''recovery'', ''system'', ''vendor'']"
    by (simp add: flash_entries_def)
  have c: "map fst (selections_of entry_get) =
     filter (\<lambda>key. key \<in> set (map fst (selections_of entry_get)))
       [''boot'', ''recovery'', ''system'', ''vendor'']"
    by (simp add: selections_of_eq)
  have d: "\<exists>rest. map (\<lambda>(part, image_path). [fastboot_path e, ''flash'', part, image_path])
              (selections_of entry_get)
            = popen_calls (flash_selected e f entry_get) @ rest"
  proof (cases "selections_of entry_get = []")
    case True
    then show ?thesis by (simp add: flash_selected_def)
  next
    case False
    then show ?thesis
      using flash_images_calls_prefix [of e "selections_of entry_get" f]
      by (simp add: flash_selected_def run_in_thread_def flash_cmd_def)
  qed
  have e: "spawned (flash_selected e f entry_get) =
        map (\<lambda>(part, image_path). [fastboot_path e, ''flash'', part, image_path])
          (selections_of entry_get)"
    if ex: "path_exists f (fastboot_path e)"
      and all: "\<forall>(part, image_path) \<in> set (selections_of entry_get).
            \<exists>p. program e [fastboot_path e, ''flash'', part, image_path] = Inr p"
  proof (cases "selections_of entry_get = []")
    case True
    then show ?thesis by (simp add: flash_selected_def)
  next
    case False
    have "\<forall>s \<in> set (selections_of entry_get). \<exists>p. program e (flash_cmd e s) = Inr p"
      using all by (auto simp: flash_cmd_def)
    from flash_images_present [OF ex this] False show ?thesis
      by (simp add: flash_selected_def run_in_thread_def flash_cmd_def)
  qed
  show ?thesis
    using a selections_of_eq [of entry_get] c d e by blast
qed

theorem flash_order_witness:
  "path_exists ex_fs (fastboot_path ex_env)
   \<and> program ex_env [fastboot_path ex_env, ''flash'', ''boot'', ''/a.img''] = Inr ex_process
   \<and> program ex_env [fastboot_path ex_env, ''flash'', ''vendor'', ''/v.img''] = Inr ex_process
   \<and> selections_of ex_entries_vb = [(''boot'', ''/a.img''), (''vendor'', ''/v.img'')]
   \<and> spawned (flash_selected ex_env ex_fs ex_entries_vb) =
       [[''/app/tools/platform-tools/fastboot'', ''flash'', ''boot'', ''/a.img''],
        [''/app/tools/platform-tools/fastboot'', ''flash'', ''vendor'', ''/v.img'']]"
proof -
  have sel: "selections_of ex_entries_vb = [(''boot'', ''/a.img''), (''vendor'', ''/v.img'')]"
    by code_simp
  have ex: "path_exists ex_fs (fastboot_path ex_env)"
    by code_simp
  have p1: "program ex_env [fastboot_path ex_env, ''flash'', ''boot'', ''/a.img''] = Inr ex_process"
    by code_simp
  have p2: "program ex_env [fastboot_path ex_env, ''flash'', ''vendor'', ''/v.img''] = Inr ex_process"
    by code_simp
  have all: "\<forall>(part, image_path) \<in> set (selections_of ex_entries_vb).
               \<exists>p. program ex_env [fastboot_path ex_env, ''flash'', part, image_path] = Inr p"
    using p1 p2 by (simp add: sel)
  have fp: "fastboot_path ex_env = ''/app/tools/platform-tools/fastboot''"
    by code_simp
  have "spawned (flash_selected ex_env ex_fs ex_entries_vb) =
        map (\<lambda>(part, image_path). [fastboot_path ex_env, ''flash'', part, image_path])
          (selections_of ex_entries_vb)"
    using flash_order [where entry_get = ex_entries_vb and e = ex_env and f = ex_fs] ex all
    by blast
  then have "spawned (flash_selected ex_env ex_fs ex_entries_vb) =
       [[''/app/tools/platform-tools/fastboot'', ''flash'', ''boot'', ''/a.img''],
        [''/app/tools/platform-tools/fastboot'', ''flash'', ''vendor'', ''/v.img'']]"
    by (simp add: sel fp)
  then show ?thesis
    using ex p1 p2 sel by blast
qed

subsection \<open>Decimal rendering\<close>






subsection \<open>The read loop\<close>


lemma read_loop_written: "fst (read_loop pc tb reads d last_logged) = body_bytes reads"
  by (induction reads arbitrary: tb d last_logged rule: body_bytes.induct)
     (simp_all add: Let_def split_beta)

lemma read_loop_error: "snd (snd (read_loop pc tb reads d last_logged)) = body_error reads"
  by (induction reads arbitrary: tb d last_logged rule: body_error.induct)
     (simp_all add: Let_def split_beta)

lemma download_file_cases:
  "download_file e f url dest =
     (case urlopen e url of
        Inl exc \<Rightarrow> ([UrlOpen url], f, Inl exc)
      | Inr resp \<Rightarrow>
          (case content_total e resp of
             Inl exc \<Rightarrow> ([UrlOpen url], f, Inl exc)
           | Inr n \<Rightarrow>
               (case open_wb_error e dest of
                  Some exc \<Rightarrow> ([UrlOpen url], f, Inl exc)
                | None \<Rightarrow>
                    (fst (download_file e f url dest),
                     write_file e f dest (body_bytes (body resp)),
                     (case body_error (body resp) of None \<Rightarrow> Inr () | Some exc \<Rightarrow> Inl exc)))))"
proof (cases "urlopen e url")
  case (Inl exc)
  then show ?thesis by (simp add: download_file_def)
next
  case (Inr resp)
  show ?thesis
  proof (cases "content_total e resp")
    case (Inl exc)
    with Inr show ?thesis by (simp add: download_file_def)
  next
    case tb: (Inr n)
    show ?thesis
    proof (cases "open_wb_error e dest")
      case (Some exc)
      with Inr tb show ?thesis by (simp add: download_file_def)
    next
      case None
      obtain w bs r where rl: "read_loop (percent_of e) n (body resp) 0 (- 1) = (w, bs, r)"
        by (cases "read_loop (percent_of e) n (body resp) 0 (- 1)")
      have w: "w = body_bytes (body resp)"
        using read_loop_written [of "percent_of e" n "body resp" 0 "- 1"] rl by simp
      have r: "r = body_error (body resp)"
        using read_loop_error [of "percent_of e" n "body resp" 0 "- 1"] rl by simp
      show ?thesis
        using Inr tb None rl w r by (simp add: download_file_def)
    qed
  qed
qed




subsection \<open>Trying the candidate URLs\<close>

lemma url_opens_append: "url_opens (a @ b) = url_opens a @ url_opens b"
  by (induction a rule: url_opens.induct) simp_all

lemma url_opens_progress: "url_opens (map (progress_line dest) bs) = []"
  by (induction bs) (simp_all add: progress_line_def)

lemma download_file_opens: "url_opens (fst (download_file e f url dest)) = [url]"
  by (auto simp: download_file_def Let_def url_opens_progress
           split: sum.splits option.splits prod.splits)

lemma dfa_never_raises:
  "\<exists>b. snd (snd (download_first_available e f urls dest)) = Inr b"
proof (induction urls arbitrary: f)
  case Nil
  then show ?case by auto
next
  case (Cons url urls)
  obtain t f1 r where df: "download_file e f url dest = (t, f1, r)"
    by (cases "download_file e f url dest")
  obtain t' f2 r' where rest: "download_first_available e f1 urls dest = (t', f2, r')"
    by (cases "download_first_available e f1 urls dest")
  from Cons.IH [of f1] rest obtain b where b: "r' = Inr b" by auto
  show ?case
    by (cases r) (auto simp: df rest b)
qed

lemma dfa_true:
  "download_first_available e f urls dest = (t, f', Inr True) \<Longrightarrow>
     dest_ok f' dest \<and> (\<exists>url \<in> set urls. \<exists>f0 t0. download_file e f0 url dest = (t0, f', Inr ()))"
proof (induction urls arbitrary: f t)
  case Nil
  then show ?case by simp
next
  case (Cons url urls)
  obtain t1 f1 r where df: "download_file e f url dest = (t1, f1, r)"
    by (cases "download_file e f url dest")
  obtain t' f2 r' where rest: "download_first_available e f1 urls dest = (t', f2, r')"
    by (cases "download_first_available e f1 urls dest")
  show ?case
  proof (cases "\<exists>u. r = Inr u \<and> dest_ok f1 dest")
    case True
    with Cons.prems df have "f' = f1" by auto
    with True df show ?thesis by auto
  next
    case False
    with Cons.prems df rest have "f2 = f'" "r' = Inr True"
      by (cases r; auto)+
    with Cons.IH [of f1 t'] rest show ?thesis by auto
  qed
qed

lemma dfa_all_fail:
  "\<forall>url \<in> set urls. \<forall>f0. \<not> attempt_ok e f0 url dest \<Longrightarrow>
     snd (snd (download_first_available e f urls dest)) = Inr False"
proof (induction urls arbitrary: f)
  case Nil
  then show ?case by simp
next
  case (Cons url urls)
  obtain t1 f1 r where df: "download_file e f url dest = (t1, f1, r)"
    by (cases "download_file e f url dest")
  obtain t' f2 r' where rest: "download_first_available e f1 urls dest = (t', f2, r')"
    by (cases "download_first_available e f1 urls dest")
  from Cons.prems have "\<not> attempt_ok e f url dest" by simp
  then have no: "\<not> (\<exists>u. r = Inr u \<and> dest_ok f1 dest)"
    by (auto simp: attempt_ok_def df)
  from Cons.IH [of f1] Cons.prems rest have "r' = Inr False" by simp
  with no show ?case
    by (cases r) (auto simp: df rest)
qed

lemma dfa_false_opens:
  "download_first_available e f urls dest = (t, f', Inr False) \<Longrightarrow> url_opens t = urls"
proof (induction urls arbitrary: f t f')
  case Nil
  then show ?case by simp
next
  case (Cons url urls)
  obtain t1 f1 r where df: "download_file e f url dest = (t1, f1, r)"
    by (cases "download_file e f url dest")
  obtain t' f2 r' where rest: "download_first_available e f1 urls dest = (t', f2, r')"
    by (cases "download_first_available e f1 urls dest")
  have o: "url_opens t1 = [url]"
    using download_file_opens [of e f url dest] df by simp
  from Cons.prems df rest have "r' = Inr False"
    by (cases r) (auto split: if_splits)
  with Cons.IH [of f1 t' f2] rest have ih: "url_opens t' = urls" by simp
  from Cons.prems df rest show ?case
    by (cases r) (auto simp: url_opens_append o ih split: if_splits)
qed

text \<open>
  Claim C3. \<open>_download_first_available\<close> never raises: it returns a boolean. It
  returns true only with the destination existing with a size above zero, in the file
  system left by a transfer of one of the URLs that returned without an exception. It
  returns false when no URL can succeed, and a false result means that every URL was
  opened, in order. With no URL it returns false with no event and the file system
  untouched.
\<close>

theorem fetch_result:
  "(\<exists>b. snd (snd (download_first_available e f urls dest)) = Inr b)
 \<and> (download_first_available e f urls dest = (t, f', Inr True) \<longrightarrow>
      dest_ok f' dest
      \<and> (\<exists>url \<in> set urls. \<exists>f0 t0. download_file e f0 url dest = (t0, f', Inr ())))
 \<and> ((\<forall>url \<in> set urls. \<forall>f0. \<not> attempt_ok e f0 url dest) \<longrightarrow>
      snd (snd (download_first_available e f urls dest)) = Inr False)
 \<and> (download_first_available e f urls dest = (t, f', Inr False) \<longrightarrow> url_opens t = urls)
 \<and> download_first_available e f [] dest = ([], f, Inr False)"
  using dfa_never_raises [of e f urls dest] dfa_true [of e f urls dest t f']
        dfa_all_fail [of urls e dest f] dfa_false_opens [of e f urls dest t f']
  by simp


theorem fetch_result_witness:
  "snd (snd (download_first_available ex_env ex_fs_old [''http://a'', ''http://c'', ''http://b'']
               ''/app/downloads/x.dmg'')) = Inr True
   \<and> dest_ok (fst (snd (download_first_available ex_env ex_fs_old
                  [''http://a'', ''http://c'', ''http://b''] ''/app/downloads/x.dmg'')))
        ''/app/downloads/x.dmg''
   \<and> (\<forall>f0. \<not> attempt_ok ex_env f0 ''http://a'' ''/app/downloads/x.dmg'')
   \<and> (\<forall>f0. \<not> attempt_ok ex_env f0 ''http://c'' ''/app/downloads/x.dmg'')
   \<and> snd (snd (download_first_available ex_env ex_fs_old [''http://a'', ''http://c'']
               ''/app/downloads/x.dmg'')) = Inr False
   \<and> url_opens (fst (download_first_available ex_env ex_fs_old [''http://a'', ''http://c'']
               ''/app/downloads/x.dmg'')) = [''http://a'', ''http://c'']"
proof -
  let ?d = "''/app/downloads/x.dmg''"
  let ?r3 = "download_first_available ex_env ex_fs_old [''http://a'', ''http://c'', ''http://b''] ?d"
  let ?r2 = "download_first_available ex_env ex_fs_old [''http://a'', ''http://c''] ?d"
  have t3: "snd (snd ?r3) = Inr True"
    by code_simp
  then have h3: "?r3 = (fst ?r3, fst (snd ?r3), Inr True)"
    by (simp add: prod_eq_iff)
  have na: "\<forall>f0. \<not> attempt_ok ex_env f0 ''http://a'' ?d"
    by (simp add: attempt_ok_def download_file_def ex_env_def ex_urlopen_def)
  have nc: "\<forall>f0. \<not> attempt_ok ex_env f0 ''http://c'' ?d"
    by (simp add: attempt_ok_def download_file_def content_total_def ex_env_def ex_urlopen_def
          Let_def)
  have all: "\<forall>url \<in> set [''http://a'', ''http://c'']. \<forall>f0. \<not> attempt_ok ex_env f0 url ?d"
    using na nc by simp
  note w3 = fetch_result [where e = ex_env and f = ex_fs_old and dest = ?d
              and urls = "[''http://a'', ''http://c'', ''http://b'']"
              and t = "fst ?r3" and f' = "fst (snd ?r3)"]
  have ok: "dest_ok (fst (snd ?r3)) ?d"
    using w3 h3 by blast
  have f2: "snd (snd ?r2) = Inr False"
    using fetch_result [where e = ex_env and f = ex_fs_old and dest = ?d
              and urls = "[''http://a'', ''http://c'']"] all
    by blast
  then have h2: "?r2 = (fst ?r2, fst (snd ?r2), Inr False)"
    by (simp add: prod_eq_iff)
  have o2: "url_opens (fst ?r2) = [''http://a'', ''http://c'']"
    using fetch_result [where e = ex_env and f = ex_fs_old and dest = ?d
              and urls = "[''http://a'', ''http://c'']"
              and t = "fst ?r2" and f' = "fst (snd ?r2)"] h2
    by blast
  show ?thesis
    using t3 ok na nc f2 o2 by blast
qed

subsection \<open>What a download leaves at the destination\<close>

lemma write_file_content: "map_option content (write_file e f p data p) = Some data"
  by (simp add: write_file_def)

text \<open>
  Claim C4, as the code has it. \<open>_download_file\<close> opens the destination itself for
  writing, which truncates it, and writes the chunks as they arrive; there is no
  temporary file and no rename. An attempt that raises before the destination is opened
  (the connection fails, the \<open>Content-Length\<close> header is rejected by \<open>int\<close>, or the open
  itself fails) leaves the file system as it was. Once the destination is open, it ends
  up holding exactly the bytes received, whether the transfer returns or a read raises;
  in the second case these are the bytes received before the error, and the previous
  content is gone. After a first URL that fails and a second that gets as far as opening
  the destination and delivers a non-empty body, the call returns true and the
  destination holds exactly the second body.
\<close>

theorem download_file_destination:
  "(urlopen e url = Inl exc \<longrightarrow> download_file e f url dest = ([UrlOpen url], f, Inl exc))
 \<and> (urlopen e url = Inr resp \<and> content_total e resp = Inl exc \<longrightarrow>
      download_file e f url dest = ([UrlOpen url], f, Inl exc))
 \<and> (urlopen e url = Inr resp \<and> content_total e resp = Inr n
      \<and> open_wb_error e dest = Some exc \<longrightarrow>
      download_file e f url dest = ([UrlOpen url], f, Inl exc))
 \<and> (urlopen e url = Inr resp \<and> content_total e resp = Inr n
      \<and> open_wb_error e dest = None \<longrightarrow>
      fst (snd (download_file e f url dest)) = write_file e f dest (body_bytes (body resp))
      \<and> snd (snd (download_file e f url dest)) =
          (case body_error (body resp) of None \<Rightarrow> Inr () | Some exc' \<Rightarrow> Inl exc')
      \<and> map_option content (fst (snd (download_file e f url dest)) dest) =
          Some (body_bytes (body resp)))
 \<and> (download_file e f u1 dest = (t1, f1, Inl exc1)
      \<and> urlopen e u2 = Inr resp2 \<and> content_total e resp2 = Inr n2
      \<and> open_wb_error e dest = None
      \<and> body_error (body resp2) = None \<and> body_bytes (body resp2) \<noteq> [] \<longrightarrow>
      (\<exists>t2. download_first_available e f (u1 # u2 # rest) dest =
               (t1 @ [Log (''Download failed: '' @ u1 @ '' ('' @ exn_str exc1 @ '')'')] @ t2,
                write_file e f1 dest (body_bytes (body resp2)), Inr True))
      \<and> map_option content (write_file e f1 dest (body_bytes (body resp2)) dest) =
          Some (body_bytes (body resp2)))"
proof -
  have a: "download_file e f url dest = ([UrlOpen url], f, Inl exc)" if "urlopen e url = Inl exc"
    using that by (simp add: download_file_def)
  have h: "download_file e f url dest = ([UrlOpen url], f, Inl exc)"
    if "urlopen e url = Inr resp" "content_total e resp = Inl exc"
    using that by (simp add: download_file_def)
  have b: "download_file e f url dest = ([UrlOpen url], f, Inl exc)"
    if "urlopen e url = Inr resp" "content_total e resp = Inr n" "open_wb_error e dest = Some exc"
    using that by (simp add: download_file_def)
  have c: "fst (snd (download_file e f url dest)) = write_file e f dest (body_bytes (body resp))
      \<and> snd (snd (download_file e f url dest)) =
          (case body_error (body resp) of None \<Rightarrow> Inr () | Some exc' \<Rightarrow> Inl exc')
      \<and> map_option content (fst (snd (download_file e f url dest)) dest) =
          Some (body_bytes (body resp))"
    if "urlopen e url = Inr resp" "content_total e resp = Inr n" "open_wb_error e dest = None"
  proof -
    have "download_file e f url dest =
            (fst (download_file e f url dest), write_file e f dest (body_bytes (body resp)),
             (case body_error (body resp) of None \<Rightarrow> Inr () | Some exc' \<Rightarrow> Inl exc'))"
      using download_file_cases [of e f url dest] that by simp
    then have "snd (download_file e f url dest) =
            (write_file e f dest (body_bytes (body resp)),
             (case body_error (body resp) of None \<Rightarrow> Inr () | Some exc' \<Rightarrow> Inl exc'))"
      by (metis snd_conv)
    then show ?thesis
      by (simp add: write_file_content)
  qed
  have d: "(\<exists>t2. download_first_available e f (u1 # u2 # rest) dest =
               (t1 @ [Log (''Download failed: '' @ u1 @ '' ('' @ exn_str exc1 @ '')'')] @ t2,
                write_file e f1 dest (body_bytes (body resp2)), Inr True))
      \<and> map_option content (write_file e f1 dest (body_bytes (body resp2)) dest) =
          Some (body_bytes (body resp2))"
    if first: "download_file e f u1 dest = (t1, f1, Inl exc1)"
      and second: "urlopen e u2 = Inr resp2" "content_total e resp2 = Inr n2"
        "open_wb_error e dest = None"
        "body_error (body resp2) = None" "body_bytes (body resp2) \<noteq> []"
  proof -
    let ?f2 = "write_file e f1 dest (body_bytes (body resp2))"
    obtain t2 where df2: "download_file e f1 u2 dest = (t2, ?f2, Inr ())"
      using download_file_cases [of e f1 u2 dest] second by simp
    have ok: "dest_ok ?f2 dest"
      using second(5) by (simp add: dest_ok_def write_file_def)
    have inner: "download_first_available e f1 (u2 # rest) dest = (t2, ?f2, Inr True)"
      by (simp add: df2 ok)
    have "download_first_available e f (u1 # u2 # rest) dest =
               (t1 @ [Log (''Download failed: '' @ u1 @ '' ('' @ exn_str exc1 @ '')'')] @ t2,
                ?f2, Inr True)"
      using first inner
      by (simp del: download_first_available.simps
               add: download_first_available.simps(2) [of e f u1 "u2 # rest"])
    then show ?thesis
      by (auto simp: write_file_content)
  qed
  show ?thesis
    apply (intro conjI)
        apply (rule impI, erule a)
       apply (rule impI, erule conjE, erule (1) h)
      apply (rule impI, elim conjE, erule (2) b)
     apply (rule impI, elim conjE, erule (2) c)
    apply (rule impI, elim conjE, erule (5) d)
    done
qed

text \<open>
  The claim as stated fails on an attempt that breaks while reading: the destination held
  \<open>old\<close> before, the attempt raises, and the destination then holds the two bytes
  received.
\<close>

theorem download_not_atomic_counterexample:
  "snd (snd (download_file ex_env ex_fs_old ''http://c'' ''/app/downloads/x.dmg'')) =
     Inl (OtherException ''timed out'')
   \<and> map_option content (ex_fs_old ''/app/downloads/x.dmg'') = Some ''old''
   \<and> map_option content
       (fst (snd (download_file ex_env ex_fs_old ''http://c'' ''/app/downloads/x.dmg''))
          ''/app/downloads/x.dmg'') = Some ''xy''"
  by code_simp


theorem download_file_destination_witness:
  "urlopen ex_env ''http://a'' = Inl (OtherException ''HTTP Error 404: Not Found'')
   \<and> map_option content
        (fst (snd (download_file ex_env ex_fs_old ''http://a'' ''/app/downloads/x.dmg''))
           ''/app/downloads/x.dmg'') = Some ''old''
   \<and> isl (content_total ex_env \<lparr>content_length = Some [CHR 0xB2], body = [Chunk ''zz'']\<rparr>)
   \<and> isl (snd (snd (download_file ex_env ex_fs_old ''http://e'' ''/app/downloads/x.dmg'')))
   \<and> map_option content
        (fst (snd (download_file ex_env ex_fs_old ''http://e'' ''/app/downloads/x.dmg''))
           ''/app/downloads/x.dmg'') = Some ''old''
   \<and> open_wb_error (ex_env\<lparr>open_wb_error := \<lambda>p. Some (OtherException ''Permission denied'')\<rparr>)
        ''/app/downloads/x.dmg'' = Some (OtherException ''Permission denied'')
   \<and> map_option content
        (fst (snd (download_file
                     (ex_env\<lparr>open_wb_error := \<lambda>p. Some (OtherException ''Permission denied'')\<rparr>)
                     ex_fs_old ''http://b'' ''/app/downloads/x.dmg''))
           ''/app/downloads/x.dmg'') = Some ''old''
   \<and> open_wb_error ex_env ''/app/downloads/x.dmg'' = None
   \<and> snd (snd (download_file ex_env ex_fs_old ''http://c'' ''/app/downloads/x.dmg'')) =
        Inl (OtherException ''timed out'')
   \<and> map_option content
        (fst (snd (download_file ex_env ex_fs_old ''http://c'' ''/app/downloads/x.dmg''))
           ''/app/downloads/x.dmg'') = Some ''xy''
   \<and> snd (snd (download_first_available ex_env ex_fs_old [''http://c'', ''http://b'']
                  ''/app/downloads/x.dmg'')) = Inr True
   \<and> map_option content
        (fst (snd (download_first_available ex_env ex_fs_old [''http://c'', ''http://b'']
                     ''/app/downloads/x.dmg''))
           ''/app/downloads/x.dmg'') = Some ''abcd''"
proof -
  let ?d = "''/app/downloads/x.dmg''"
  let ?e2 = "ex_env\<lparr>open_wb_error := \<lambda>p. Some (OtherException ''Permission denied'')\<rparr>"
  let ?rb = "\<lparr>content_length = Some ''4'', body = [Chunk ''ab'', Chunk ''cd'']\<rparr>"
  let ?rc = "\<lparr>content_length = None,
              body = [Chunk ''xy'', ReadError (OtherException ''timed out'')]\<rparr>"
  let ?re = "\<lparr>content_length = Some [CHR 0xB2], body = [Chunk ''zz'']\<rparr>"
  let ?ve = "OtherException (''invalid literal for int() with base 10: '' @ [CHR 0xB2])"
  have ua: "urlopen ex_env ''http://a'' = Inl (OtherException ''HTTP Error 404: Not Found'')"
    and ub2: "urlopen ?e2 ''http://b'' = Inr ?rb"
    and ub: "urlopen ex_env ''http://b'' = Inr ?rb"
    and uc: "urlopen ex_env ''http://c'' = Inr ?rc"
    and ue: "urlopen ex_env ''http://e'' = Inr ?re"
    by code_simp+
  have tb2: "content_total ?e2 ?rb = Inr 4"
    and tb: "content_total ex_env ?rb = Inr 4"
    and tc: "content_total ex_env ?rc = Inr 0"
    and te: "content_total ex_env ?re = Inl ?ve"
    by code_simp+
  have o2: "open_wb_error ?e2 ?d = Some (OtherException ''Permission denied'')"
    and o: "open_wb_error ex_env ?d = None"
    and old: "map_option content (ex_fs_old ?d) = Some ''old''"
    by code_simp+
  have k1: "download_file ex_env ex_fs_old ''http://a'' ?d =
             ([UrlOpen ''http://a''], ex_fs_old, Inl (OtherException ''HTTP Error 404: Not Found''))"
    using download_file_destination [where e = ex_env and f = ex_fs_old and dest = ?d
            and url = "''http://a''" and exc = "OtherException ''HTTP Error 404: Not Found''"] ua
    by blast
  have ke: "download_file ex_env ex_fs_old ''http://e'' ?d =
             ([UrlOpen ''http://e''], ex_fs_old, Inl ?ve)"
    using download_file_destination [where e = ex_env and f = ex_fs_old and dest = ?d
            and url = "''http://e''" and exc = ?ve and resp = ?re] ue te
    by blast
  have k2: "download_file ?e2 ex_fs_old ''http://b'' ?d =
             ([UrlOpen ''http://b''], ex_fs_old, Inl (OtherException ''Permission denied''))"
    using download_file_destination [where e = ?e2 and f = ex_fs_old and dest = ?d
            and url = "''http://b''" and exc = "OtherException ''Permission denied''"
            and resp = ?rb and n = 4] ub2 tb2 o2
    by blast
  have k3: "snd (snd (download_file ex_env ex_fs_old ''http://c'' ?d)) =
             (case body_error (body ?rc) of None \<Rightarrow> Inr () | Some exc' \<Rightarrow> Inl exc')"
      "map_option content (fst (snd (download_file ex_env ex_fs_old ''http://c'' ?d)) ?d) =
             Some (body_bytes (body ?rc))"
    using download_file_destination [where e = ex_env and f = ex_fs_old and dest = ?d
            and url = "''http://c''" and resp = ?rc and n = 0] uc tc o
    by blast+
  have k3': "snd (snd (download_file ex_env ex_fs_old ''http://c'' ?d)) =
              Inl (OtherException ''timed out'')"
    using k3(1) by simp
  let ?t1 = "fst (download_file ex_env ex_fs_old ''http://c'' ?d)"
  let ?f1 = "fst (snd (download_file ex_env ex_fs_old ''http://c'' ?d))"
  have first: "download_file ex_env ex_fs_old ''http://c'' ?d =
                 (?t1, ?f1, Inl (OtherException ''timed out''))"
    using k3' by (simp add: prod_eq_iff)
  have be: "body_error (body ?rb) = None" and bb: "body_bytes (body ?rb) \<noteq> []"
    by simp_all
  from download_file_destination [where e = ex_env and f = ex_fs_old and dest = ?d
            and ?u1.0 = "''http://c''" and ?t1.0 = ?t1 and ?f1.0 = ?f1
            and ?exc1.0 = "OtherException ''timed out''"
            and ?u2.0 = "''http://b''" and ?resp2.0 = ?rb and ?n2.0 = 4 and rest = "[]"]
       first ub tb o be bb
  obtain t2 where k4: "download_first_available ex_env ex_fs_old [''http://c'', ''http://b''] ?d =
               (?t1 @ [Log (''Download failed: '' @ ''http://c'' @ '' ('' @
                         exn_str (OtherException ''timed out'') @ '')'')] @ t2,
                write_file ex_env ?f1 ?d (body_bytes (body ?rb)), Inr True)"
    by blast
  have k4': "snd (snd (download_first_available ex_env ex_fs_old [''http://c'', ''http://b''] ?d)) =
              Inr True"
    by (simp only: k4 snd_conv)
  have k4'': "map_option content
        (fst (snd (download_first_available ex_env ex_fs_old [''http://c'', ''http://b''] ?d)) ?d) =
          Some ''abcd''"
    by (simp only: k4 snd_conv fst_conv write_file_content) simp
  have ie: "isl (content_total ex_env ?re)"
    by (simp add: te)
  show ?thesis
    using ua o2 o old k1 ke k2 k3' k3(2) k4' k4'' ie by simp
qed

subsection \<open>Extraction and the execute bits\<close>

lemma write_file_other: "p \<noteq> q \<Longrightarrow> write_file e f p data q = f q"
  by (simp add: write_file_def)
















end
